theory Spec2Isabelle
  imports Main "HOL-Library.DAList"
begin

section \<open>JavaScript values used by the storage layer\<close>

text \<open>
  A field of type \<open>number | null | undefined\<close> is an \<open>int option\<close> (\<open>None\<close> for
  \<open>null\<close> and \<open>undefined\<close> alike), a field of type \<open>string | null | undefined\<close> a
  \<open>string option\<close>. The operator \<open>||\<close> returns its right operand when the left one is
  falsy: \<open>null\<close>, \<open>undefined\<close>, the number \<open>0\<close> and the empty string.
\<close>

definition num_or_null :: "int option \<Rightarrow> int option" where
  \<comment> \<open>\<open>x || null\<close> on a number\<close>
  "num_or_null x = (case x of None \<Rightarrow> None | Some v \<Rightarrow> if v = 0 then None else Some v)"

definition str_or :: "string option \<Rightarrow> string \<Rightarrow> string" where
  \<comment> \<open>\<open>s || d\<close> on a string\<close>
  "str_or s d = (case s of None \<Rightarrow> d | Some v \<Rightarrow> if v = [] then d else v)"

definition slice_from_end :: "nat \<Rightarrow> 'a list \<Rightarrow> 'a list" where
  \<comment> \<open>\<open>xs.slice(-n)\<close> for \<open>n > 0\<close>: the last \<open>n\<close> elements, all of them when there are fewer\<close>
  "slice_from_end n xs = drop (length xs - n) xs"

section \<open>The shared schema (schema.ts)\<close>

datatype BotStatus = ONLINE | OFFLINE | WARNING

fun BotStatus_text :: "BotStatus \<Rightarrow> string" where
  "BotStatus_text ONLINE = ''ONLINE''"
| "BotStatus_text OFFLINE = ''OFFLINE''"
| "BotStatus_text WARNING = ''WARNING''"

text \<open>
  The row types. Timestamps are natural numbers read from a clock. Where two row types
  of the schema share a field name, the field carries the row's name in front:
  \<open>bot_id\<close> is \<open>Bot.id\<close>, \<open>log_botId\<close> is \<open>Log.botId\<close>, \<open>metric_cpuUsage\<close> is
  \<open>Metric.cpuUsage\<close>; the insert types keep the plain names.
\<close>

record Bot =
  bot_id :: int
  name :: string
  token :: string
  prefix :: string
  userId :: int
  isRunning :: bool
  memory :: "int option"
  uptime :: "int option"
  serverCount :: "int option"
  commandCount :: "int option"
  lastStarted :: "nat option"
  botType :: "string option"
  iconType :: "string option"
  status :: "string option"
  permissions :: "string option"
  inviteConfig :: "string option"

text \<open>
  \<open>Partial<Bot>\<close>, an object literal holding some of the fields of a bot, is the list
  of its field assignments in the order they are written.
\<close>

datatype BotField =
    Set_id int
  | Set_name string
  | Set_token string
  | Set_prefix string
  | Set_userId int
  | Set_isRunning bool
  | Set_memory "int option"
  | Set_uptime "int option"
  | Set_serverCount "int option"
  | Set_commandCount "int option"
  | Set_lastStarted "nat option"
  | Set_botType "string option"
  | Set_iconType "string option"
  | Set_status "string option"
  | Set_permissions "string option"
  | Set_inviteConfig "string option"

fun assign :: "Bot \<Rightarrow> BotField \<Rightarrow> Bot" where
  "assign b (Set_id v) = b\<lparr>bot_id := v\<rparr>"
| "assign b (Set_name v) = b\<lparr>name := v\<rparr>"
| "assign b (Set_token v) = b\<lparr>token := v\<rparr>"
| "assign b (Set_prefix v) = b\<lparr>prefix := v\<rparr>"
| "assign b (Set_userId v) = b\<lparr>userId := v\<rparr>"
| "assign b (Set_isRunning v) = b\<lparr>isRunning := v\<rparr>"
| "assign b (Set_memory v) = b\<lparr>memory := v\<rparr>"
| "assign b (Set_uptime v) = b\<lparr>uptime := v\<rparr>"
| "assign b (Set_serverCount v) = b\<lparr>serverCount := v\<rparr>"
| "assign b (Set_commandCount v) = b\<lparr>commandCount := v\<rparr>"
| "assign b (Set_lastStarted v) = b\<lparr>lastStarted := v\<rparr>"
| "assign b (Set_botType v) = b\<lparr>botType := v\<rparr>"
| "assign b (Set_iconType v) = b\<lparr>iconType := v\<rparr>"
| "assign b (Set_status v) = b\<lparr>status := v\<rparr>"
| "assign b (Set_permissions v) = b\<lparr>permissions := v\<rparr>"
| "assign b (Set_inviteConfig v) = b\<lparr>inviteConfig := v\<rparr>"

definition spread :: "Bot \<Rightarrow> BotField list \<Rightarrow> Bot" where
  \<comment> \<open>\<open>{ ...bot, ...data }\<close>\<close>
  "spread b data = foldl assign b data"

record InsertLog =
  botId :: "int option"
  level :: "string option"
  message :: string

record Log =
  log_id :: int
  log_botId :: "int option"
  log_timestamp :: nat
  log_level :: string
  log_message :: string

record InsertMetric =
  cpuUsage :: "int option"
  memoryUsage :: "int option"
  memoryTotal :: "int option"
  diskUsage :: "int option"
  diskTotal :: "int option"
  networkUsage :: "int option"

record Metric =
  metric_id :: int
  metric_timestamp :: nat
  metric_cpuUsage :: "int option"
  metric_memoryUsage :: "int option"
  metric_memoryTotal :: "int option"
  metric_diskUsage :: "int option"
  metric_diskTotal :: "int option"
  metric_networkUsage :: "int option"

section \<open>The in-memory store (storage.ts, class MemStorage)\<close>

text \<open>
  \<open>bots\<close> is a JavaScript \<open>Map\<close>: keys are unique, iteration follows insertion order,
  \<open>set\<close> on a key already present keeps its position. That is an association list with
  distinct keys under \<open>DAList.update\<close> and \<open>DAList.delete\<close>. The user table is left out:
  no operation of the bot manager reads or writes it. Every operation takes the store
  and returns its result with the store it leaves; none of them raises. The argument
  \<open>now\<close> is what \<open>new Date()\<close> reads.
\<close>

record MemStorage =
  bots :: "(int, Bot) alist"
  logs :: "Log list"
  metricsHistory :: "Metric list"
  botCurrentId :: int
  logCurrentId :: int
  metricsCurrentId :: int

definition getAllBots :: "MemStorage \<Rightarrow> Bot list" where
  "getAllBots s = map snd (DAList.impl_of (bots s))"

definition getBot :: "int \<Rightarrow> MemStorage \<Rightarrow> Bot option" where
  "getBot i s = DAList.lookup (bots s) i"

definition updateBot :: "int \<Rightarrow> BotField list \<Rightarrow> MemStorage \<Rightarrow> Bot option \<times> MemStorage" where
  "updateBot i data s =
     (case DAList.lookup (bots s) i of
        None \<Rightarrow> (None, s)
      | Some b \<Rightarrow>
          (let updatedBot = spread b data
           in (Some updatedBot, s\<lparr>bots := DAList.update i updatedBot (bots s)\<rparr>)))"

definition deleteBot :: "int \<Rightarrow> MemStorage \<Rightarrow> bool \<times> MemStorage" where
  "deleteBot i s =
     (DAList.lookup (bots s) i \<noteq> None, s\<lparr>bots := DAList.delete i (bots s)\<rparr>)"

definition createLog :: "nat \<Rightarrow> InsertLog \<Rightarrow> MemStorage \<Rightarrow> Log \<times> MemStorage" where
  "createLog now insertLog s =
     (let i = logCurrentId s;
          log = \<lparr>log_id = i,
                 log_botId = num_or_null (botId insertLog),
                 log_timestamp = now,
                 log_level = str_or (level insertLog) ''info'',
                 log_message = message insertLog\<rparr>;
          pushed = logs s @ [log]
      in (log, s\<lparr>logCurrentId := i + 1,
                 logs := (if length pushed > 1000 then slice_from_end 1000 pushed else pushed)\<rparr>))"

definition getLatestMetrics :: "MemStorage \<Rightarrow> Metric option" where
  "getLatestMetrics s =
     (if length (metricsHistory s) = 0 then None
      else Some (metricsHistory s ! (length (metricsHistory s) - 1)))"

definition createMetrics :: "nat \<Rightarrow> InsertMetric \<Rightarrow> MemStorage \<Rightarrow> Metric \<times> MemStorage" where
  "createMetrics now insertMetrics s =
     (let i = metricsCurrentId s;
          metric = \<lparr>metric_id = i,
                    metric_timestamp = now,
                    metric_cpuUsage = num_or_null (cpuUsage insertMetrics),
                    metric_memoryUsage = num_or_null (memoryUsage insertMetrics),
                    metric_memoryTotal = num_or_null (memoryTotal insertMetrics),
                    metric_diskUsage = num_or_null (diskUsage insertMetrics),
                    metric_diskTotal = num_or_null (diskTotal insertMetrics),
                    metric_networkUsage = num_or_null (networkUsage insertMetrics)\<rparr>;
          pushed = metricsHistory s @ [metric]
      in (metric, s\<lparr>metricsCurrentId := i + 1,
                    metricsHistory :=
                      (if length pushed > 100 then slice_from_end 100 pushed else pushed)\<rparr>))"

text \<open>
  A run of \<open>createLog\<close> and \<open>createMetrics\<close> calls, each with the clock value it reads.
  \<open>run_calls\<close> returns the rows the calls returned, in order, and the final store.
\<close>

datatype StorageCall = CreateLog nat InsertLog | CreateMetrics nat InsertMetric

fun run_calls :: "StorageCall list \<Rightarrow> MemStorage \<Rightarrow> (Log list \<times> Metric list) \<times> MemStorage" where
  "run_calls [] s = (([], []), s)"
| "run_calls (CreateLog now l # cs) s =
     (case createLog now l s of (log, s1) \<Rightarrow>
        (case run_calls cs s1 of ((ls, ms), s2) \<Rightarrow> ((log # ls, ms), s2)))"
| "run_calls (CreateMetrics now m # cs) s =
     (case createMetrics now m s of (metric, s1) \<Rightarrow>
        (case run_calls cs s1 of ((ls, ms), s2) \<Rightarrow> ((ls, metric # ms), s2)))"

text \<open>
  What such a run has to return, read off the calls alone: \<open>log_rows i cs\<close> are the
  rows of the \<open>createLog\<close> calls in \<open>cs\<close>, in order, numbered from \<open>i\<close>, each with
  the clock value and the normalised fields of its call; \<open>metric_rows\<close> is the same
  for the \<open>createMetrics\<close> calls.
\<close>

fun log_rows :: "int \<Rightarrow> StorageCall list \<Rightarrow> Log list" where
  "log_rows i [] = []"
| "log_rows i (CreateLog now l # cs) =
     \<lparr>log_id = i, log_botId = num_or_null (botId l), log_timestamp = now,
      log_level = str_or (level l) ''info'', log_message = message l\<rparr> # log_rows (i + 1) cs"
| "log_rows i (CreateMetrics now m # cs) = log_rows i cs"

fun metric_rows :: "int \<Rightarrow> StorageCall list \<Rightarrow> Metric list" where
  "metric_rows i [] = []"
| "metric_rows i (CreateLog now l # cs) = metric_rows i cs"
| "metric_rows i (CreateMetrics now m # cs) =
     \<lparr>metric_id = i, metric_timestamp = now,
      metric_cpuUsage = num_or_null (cpuUsage m),
      metric_memoryUsage = num_or_null (memoryUsage m),
      metric_memoryTotal = num_or_null (memoryTotal m),
      metric_diskUsage = num_or_null (diskUsage m),
      metric_diskTotal = num_or_null (diskTotal m),
      metric_networkUsage = num_or_null (networkUsage m)\<rparr> # metric_rows (i + 1) cs"

fun is_log_call :: "StorageCall \<Rightarrow> bool" where
  "is_log_call (CreateLog now l) = True"
| "is_log_call (CreateMetrics now m) = False"

section \<open>The world outside the bot manager\<close>

text \<open>
  A Discord client object is identified by the order in which \<open>new Client\<close> made it
  and carries the gateway intents it was built with. A dashboard connection
  (\<open>WebSocket\<close>) is identified by a number. What the two libraries answer is not in the
  repository; it is a parameter \<open>env\<close> of every operation, and every theorem
  holds for all of them:
  \<^item> \<open>login_error c t\<close> is \<open>None\<close> when \<open>c.login(t)\<close> resolves and \<open>Some m\<close> when it rejects
    with an error whose \<open>message\<close> is \<open>m\<close> (the empty string for an error with no message);
  \<^item> \<open>destroy_error c\<close> does the same for \<open>c.destroy()\<close>;
  \<^item> \<open>ws_ping c\<close> is \<open>c.ws.ping\<close>;
  \<^item> \<open>readyState ws\<close> is the state of the dashboard connection;
  \<^item> \<open>send_throws ws\<close> tells whether \<open>ws.send\<close> throws;
  \<^item> \<open>date_now\<close> is the clock and \<open>process_pid\<close> is \<open>process.pid\<close>.

  An answer belongs to the object asked: two calls on one client get the same answer,
  while every \<open>login\<close> is on a client of its own and may be answered differently.
\<close>

datatype GatewayIntentBits = Guilds | GuildMessages | GuildVoiceStates | GuildBans

record Client =
  client_no :: nat
  intents :: "GatewayIntentBits list"

type_synonym WebSocket = nat

datatype ReadyState = CONNECTING | OPEN | CLOSING | CLOSED

record env =
  login_error :: "Client \<Rightarrow> string \<Rightarrow> string option"
  destroy_error :: "Client \<Rightarrow> string option"
  ws_ping :: "Client \<Rightarrow> int"
  readyState :: "WebSocket \<Rightarrow> ReadyState"
  send_throws :: "WebSocket \<Rightarrow> bool"
  date_now :: nat
  process_pid :: nat

text \<open>
  The calls the manager makes on those objects are recorded as they happen:
  \<open>ClientLogin\<close> and \<open>ClientDestroy\<close> on Discord clients, \<open>Send\<close> on dashboard
  connections, with the message passed (the object given to \<open>JSON.stringify\<close>) and
  whether the call threw.
\<close>

datatype ClientCall = ClientLogin Client string | ClientDestroy Client

datatype Message = StatusUpdate "Bot list" "Metric option" | ErrorMessage string

datatype SendCall = Send (send_to: WebSocket) (send_msg: Message) (send_threw: bool)

section \<open>The bot manager (bot-manager.ts, class BotManager)\<close>

record BotProcess =
  proc_botId :: int
  discordClient :: "Client option"
  proc_status :: BotStatus
  startTime :: "nat option"
  pid :: "nat option"
  proc_memory :: "int option"

text \<open>
  The state the manager works on: the module's store, the handle map
  \<open>botProcesses\<close> (a \<open>Map\<close>, as \<open>bots\<close> above), the subscriber set \<open>clients\<close> in
  insertion order, the number of Discord clients constructed so far, and the
  three records of what the manager did to the outside: the calls on Discord clients,
  the calls of \<open>send\<close>, and every row that \<open>createLog\<close> created (the store itself
  forgets a row once 1000 later ones exist). An operation runs from its call to its
  return: what other timers and callbacks do between its \<open>await\<close>s is not part of it.
\<close>

record BotManager =
  storage :: MemStorage
  botProcesses :: "(int, BotProcess) alist"
  clients :: "WebSocket list"
  clientsMade :: nat
  clientCalls :: "ClientCall list"
  sendCalls :: "SendCall list"
  logged :: "Log list"

definition botTemplates :: "string \<Rightarrow> GatewayIntentBits list option" where
  \<comment> \<open>\<open>loadBotTemplates\<close>: the intents each template's \<open>createClient\<close> asks for\<close>
  "botTemplates t =
     (if t = ''simple'' then Some [Guilds, GuildMessages]
      else if t = ''CUSTOM'' then Some [Guilds, GuildMessages]
      else if t = ''GAMING'' then Some [Guilds, GuildMessages]
      else if t = ''MUSIC'' then Some ([Guilds, GuildMessages] @ [GuildVoiceStates])
      else if t = ''MODERATION'' then Some ([Guilds, GuildMessages] @ [GuildBans])
      else if t = ''advanced'' then Some ([Guilds, GuildMessages] @ [GuildVoiceStates])
      else None)"

definition BotManager_createLog :: "env \<Rightarrow> InsertLog \<Rightarrow> BotManager \<Rightarrow> BotManager" where
  \<comment> \<open>\<open>BotManager.createLog\<close>: \<open>await storage.createLog(logData)\<close>\<close>
  "BotManager_createLog e logData w =
     (case createLog (date_now e) logData (storage w) of
        (row, s) \<Rightarrow> w\<lparr>storage := s, logged := logged w @ [row]\<rparr>)"

definition sendStatusUpdateToClient :: "env \<Rightarrow> WebSocket \<Rightarrow> BotManager \<Rightarrow> BotManager" where
  \<comment> \<open>an exception of \<open>ws.send\<close> is caught and written to the console only\<close>
  "sendStatusUpdateToClient e ws w =
     (let allBots = getAllBots (storage w);
          metrics = getLatestMetrics (storage w)
      in w\<lparr>sendCalls := sendCalls w @ [Send ws (StatusUpdate allBots metrics) (send_throws e ws)]\<rparr>)"

definition broadcastUpdate :: "env \<Rightarrow> BotManager \<Rightarrow> BotManager" where
  "broadcastUpdate e w = fold (sendStatusUpdateToClient e) (clients w) w"

text \<open>
  \<open>broadcastError\<close> has no \<open>try\<close>: a \<open>send\<close> that throws leaves \<open>forEach\<close>, the
  subscribers after it get nothing and the promise is rejected. The boolean returned
  tells whether the promise was fulfilled.
\<close>

fun sendErrorTo :: "env \<Rightarrow> string \<Rightarrow> WebSocket list \<Rightarrow> BotManager \<Rightarrow> bool \<times> BotManager" where
  "sendErrorTo e msg [] w = (True, w)"
| "sendErrorTo e msg (client # rest) w =
     (if readyState e client = OPEN
      then (let w' = w\<lparr>sendCalls := sendCalls w @
                         [Send client (ErrorMessage msg) (send_throws e client)]\<rparr>
            in if send_throws e client then (False, w') else sendErrorTo e msg rest w')
      else sendErrorTo e msg rest w)"

definition broadcastError :: "env \<Rightarrow> string \<Rightarrow> BotManager \<Rightarrow> bool \<times> BotManager" where
  "broadcastError e msg w = sendErrorTo e msg (clients w) w"

definition updateBotStatus :: "env \<Rightarrow> int \<Rightarrow> BotStatus \<Rightarrow> BotManager \<Rightarrow> BotManager" where
  "updateBotStatus e i st w =
     broadcastUpdate e
       (w\<lparr>storage := snd (updateBot i [Set_status (Some (BotStatus_text st))] (storage w))\<rparr>)"

definition updateBotMetrics :: "int \<Rightarrow> BotField list \<Rightarrow> BotManager \<Rightarrow> BotManager" where
  "updateBotMetrics i metrics w = w\<lparr>storage := snd (updateBot i metrics (storage w))\<rparr>"

definition newClient :: "Bot \<Rightarrow> nat \<Rightarrow> Client" where
  \<comment> \<open>\<open>template ? template.createClient() : new Client({ intents: [Guilds, GuildMessages] })\<close>,
      the \<open>n\<close>-th client constructed\<close>
  "newClient botData n =
     (let templateType = str_or (botType botData) ''simple''
      in \<lparr>client_no = n,
          intents = (case botTemplates templateType of
                       Some template \<Rightarrow> template
                     | None \<Rightarrow> [Guilds, GuildMessages])\<rparr>)"

text \<open>
  \<open>startBot\<close>. Its whole body is inside \<open>try\<close>; the one call in it that can fail is
  \<open>client.login\<close>, and the handler logs and returns \<open>false\<close>, so the function always
  returns a boolean. The four event handlers it registers run later, from the
  library's callbacks, and are not part of the call.
\<close>

definition startBot :: "env \<Rightarrow> int \<Rightarrow> BotManager \<Rightarrow> bool \<times> BotManager" where
  "startBot e i w =
     (let tokenNotFound =
            (False, BotManager_createLog e
                      \<lparr>botId = Some i, level = Some ''error'', message = ''Bot token not found''\<rparr> w)
      in case getBot i (storage w) of
           None \<Rightarrow> tokenNotFound
         | Some botData \<Rightarrow>
             if token botData = [] then tokenNotFound
             else if DAList.lookup (botProcesses w) i \<noteq> None then
               (True, BotManager_createLog e
                        \<lparr>botId = Some i, level = Some ''warning'', message = ''Bot is already running''\<rparr> w)
             else
               (let client = newClient botData (clientsMade w);
                    w1 = w\<lparr>clientsMade := clientsMade w + 1,
                           clientCalls := clientCalls w @ [ClientLogin client (token botData)]\<rparr>
                in case login_error e client (token botData) of
                     Some m \<Rightarrow>
                       (False, BotManager_createLog e
                                 \<lparr>botId = Some i, level = Some ''error'',
                                  message = ''Failed to start: '' @ str_or (Some m) ''Unknown error''\<rparr> w1)
                   | None \<Rightarrow>
                       (True, w1\<lparr>botProcesses :=
                                   DAList.update i
                                     \<lparr>proc_botId = i,
                                      discordClient = Some client,
                                      proc_status = ONLINE,
                                      startTime = Some (date_now e),
                                      pid = Some (process_pid e),
                                      proc_memory = Some 100\<rparr>
                                     (botProcesses w1)\<rparr>)))"

definition stopBot :: "env \<Rightarrow> int \<Rightarrow> BotManager \<Rightarrow> bool \<times> BotManager" where
  "stopBot e i w =
     (case DAList.lookup (botProcesses w) i of
        None \<Rightarrow> (False, w)
      | Some botProcess \<Rightarrow>
          (let removed = (\<lambda>w'. (True, updateBotStatus e i OFFLINE
                                        (w'\<lparr>botProcesses := DAList.delete i (botProcesses w')\<rparr>)))
           in case discordClient botProcess of
                None \<Rightarrow> removed w
              | Some c \<Rightarrow>
                  (let w1 = w\<lparr>clientCalls := clientCalls w @ [ClientDestroy c]\<rparr>
                   in case destroy_error e c of
                        Some m \<Rightarrow>
                          (False, BotManager_createLog e
                                    \<lparr>botId = Some i, level = Some ''error'',
                                     message = ''Failed to stop: '' @ str_or (Some m) ''Unknown error''\<rparr> w1)
                      | None \<Rightarrow> removed w1)))"

definition restartBot :: "env \<Rightarrow> int \<Rightarrow> BotManager \<Rightarrow> bool \<times> BotManager" where
  "restartBot e i w = startBot e i (snd (stopBot e i w))"

text \<open>
  One pass of the timer in \<open>initializePingMechanism\<close>. \<open>pingBot\<close> is the body of its
  loop for one bot of the list read at the start. \<open>botProcess\<close> is read once, before
  the first test, and the later tests use that value. \<open>restartBot\<close> never rejects (both
  functions it calls catch what they raise, and the store raises nothing), so the two
  \<open>catch\<close> blocks around its first call are never entered and the success entry is
  logged whatever it returned.
\<close>

definition pingBot :: "env \<Rightarrow> Bot \<Rightarrow> BotManager \<Rightarrow> BotManager" where
  "pingBot e b w =
     (let botProcess = DAList.lookup (botProcesses w) (bot_id b);
          w1 = (if isRunning b \<and>
                   (case botProcess of
                      None \<Rightarrow> True
                    | Some p \<Rightarrow> proc_status p = WARNING \<or> proc_status p = OFFLINE)
                then
                  (let wa = BotManager_createLog e
                              \<lparr>botId = Some (bot_id b), level = Some ''warning'',
                               message = ''Ping mechanism detected bot offline. Attempting automatic reconnection.''\<rparr> w;
                       wb = snd (restartBot e (bot_id b) wa)
                   in BotManager_createLog e
                        \<lparr>botId = Some (bot_id b), level = Some ''success'',
                         message = ''Bot successfully reconnected by auto-recovery system.''\<rparr> wb)
                else w);
          w2 = (if (case botProcess of None \<Rightarrow> False | Some p \<Rightarrow> proc_status p = ONLINE) \<and>
                   \<not> isRunning b
                then
                  (let wa = updateBotStatus e (bot_id b) ONLINE w1;
                       wb = updateBotMetrics (bot_id b) [Set_isRunning True] wa
                   in BotManager_createLog e
                        \<lparr>botId = Some (bot_id b), level = Some ''info'',
                         message = ''Ping mechanism corrected bot status to online.''\<rparr> wb)
                else w1)
      in case botProcess of
           None \<Rightarrow> w2
         | Some p \<Rightarrow>
             (case discordClient p of
                None \<Rightarrow> w2
              | Some c \<Rightarrow>
                  if proc_status p = ONLINE
                  then (let isHealthy = (ws_ping e c \<noteq> - 1)
                        in if \<not> isHealthy then snd (restartBot e (bot_id b) w2) else w2)
                  else w2))"

definition pingTick :: "env \<Rightarrow> BotManager \<Rightarrow> BotManager" where
  "pingTick e w = broadcastUpdate e (fold (pingBot e) (getAllBots (storage w)) w)"

section \<open>Notions the properties are stated with\<close>

text \<open>
  \<open>handles_for i w\<close> lists the entries of the handle map under the key \<open>i\<close>.
  \<open>online_handle i w\<close> holds when the map has a handle for \<open>i\<close> whose status is
  \<open>ONLINE\<close>. \<open>error_logged_since n i w\<close> holds when, among the rows created after the
  first \<open>n\<close>, one has level \<open>error\<close> and the bot identifier that \<open>createLog\<close> stores
  for \<open>i\<close>. \<open>recovered\<close> and \<open>converging\<close> are the two invariants of the
  reconciliation pass: a bot is recovered once it has an online handle or an error row,
  and converging while it has no handle yet or is recovered.
  \<open>correction_logged_since n i w\<close> holds when one of the rows created after the first
  \<open>n\<close> is the pass's correction entry for \<open>i\<close>. \<open>untouched i w w'\<close> says that
  between \<open>w\<close> and \<open>w'\<close> neither the handle nor the record of \<open>i\<close> changed and rows
  were only added.
\<close>

definition handles_for :: "int \<Rightarrow> BotManager \<Rightarrow> BotProcess list" where
  "handles_for i w = map snd (filter (\<lambda>kv. fst kv = i) (DAList.impl_of (botProcesses w)))"





definition correction_logged_since :: "nat \<Rightarrow> int \<Rightarrow> BotManager \<Rightarrow> bool" where
  "correction_logged_since n i w =
     list_ex (\<lambda>row. log_level row = ''info'' \<and>
                    log_message row = ''Ping mechanism corrected bot status to online.'' \<and>
                    log_botId row = num_or_null (Some i))
       (drop n (logged w))"

definition untouched :: "int \<Rightarrow> BotManager \<Rightarrow> BotManager \<Rightarrow> bool" where
  "untouched i w w' =
     (DAList.lookup (botProcesses w') i = DAList.lookup (botProcesses w) i \<and>
      getBot i (storage w') = getBot i (storage w) \<and>
      (\<exists>ls. logged w' = logged w @ ls))"

section \<open>Concrete stores, managers and environments\<close>

text \<open>
  The inputs at which theorems are instantiated: an empty store, a store whose
  histories are full (1000 log rows, 100 samples), a store holding the first
  sample bot of the constructor, managers with and without a handle for it, and
  environments in which every call succeeds, \<open>destroy\<close> throws, \<open>login\<close> is
  rejected, the health probe reports no signal, or one subscriber is closed.
\<close>

definition old_log :: "nat \<Rightarrow> Log" where
  "old_log k = \<lparr>log_id = int k, log_botId = None, log_timestamp = k,
               log_level = ''info'', log_message = ''tick''\<rparr>"

definition old_metric :: "nat \<Rightarrow> Metric" where
  "old_metric k = \<lparr>metric_id = int k, metric_timestamp = k, metric_cpuUsage = Some 42,
                  metric_memoryUsage = Some 1200, metric_memoryTotal = Some 2000,
                  metric_diskUsage = Some 18000, metric_diskTotal = Some 50000,
                  metric_networkUsage = Some 2700\<rparr>"

definition store_full :: MemStorage where
  "store_full = \<lparr>bots = DAList.empty, logs = map old_log [1..<1001],
                 metricsHistory = map old_metric [1..<101],
                 botCurrentId = 1, logCurrentId = 1001, metricsCurrentId = 101\<rparr>"

definition store0 :: MemStorage where
  "store0 = \<lparr>bots = DAList.empty, logs = [], metricsHistory = [],
             botCurrentId = 1, logCurrentId = 1, metricsCurrentId = 1\<rparr>"

definition calls_cap :: "StorageCall list" where
  "calls_cap = [CreateLog 2001 \<lparr>botId = Some 1, level = None, message = ''started''\<rparr>,
                CreateMetrics 2002 \<lparr>cpuUsage = Some 7, memoryUsage = Some 1300, memoryTotal = Some 2000,
                                    diskUsage = Some 18000, diskTotal = Some 50000, networkUsage = Some 2700\<rparr>,
                CreateLog 2003 \<lparr>botId = None, level = Some ''error'', message = ''stopped''\<rparr>]"

definition bot1 :: Bot where
  "bot1 = \<lparr>bot_id = 1, name = ''Moderation Bot'', token = ''placeholder-token'', prefix = ''!'',
           userId = 2, isRunning = False, memory = Some 78, uptime = Some 0,
           serverCount = Some 12, commandCount = Some 24, lastStarted = None,
           botType = Some ''MODERATION'', iconType = Some ''shield'', status = Some ''OFFLINE'',
           permissions = Some ''1099511627775'', inviteConfig = Some ''{}''\<rparr>"

definition store1 :: MemStorage where
  "store1 = \<lparr>bots = DAList.update 1 bot1 DAList.empty, logs = [], metricsHistory = [],
             botCurrentId = 2, logCurrentId = 1, metricsCurrentId = 1\<rparr>"

definition proc1 :: BotProcess where
  "proc1 = \<lparr>proc_botId = 1, discordClient = Some (newClient bot1 0), proc_status = ONLINE,
            startTime = Some 0, pid = Some 4242, proc_memory = Some 100\<rparr>"

definition world_idle :: BotManager where
  "world_idle = \<lparr>storage = store1, botProcesses = DAList.empty, clients = [],
                 clientsMade = 0, clientCalls = [], sendCalls = [], logged = []\<rparr>"

definition world_running :: BotManager where
  "world_running = \<lparr>storage = store1, botProcesses = DAList.update 1 proc1 DAList.empty,
                    clients = [], clientsMade = 1, clientCalls = [], sendCalls = [], logged = []\<rparr>"

definition env_ok :: env where
  "env_ok = \<lparr>login_error = (\<lambda>c t. None), destroy_error = (\<lambda>c. None), ws_ping = (\<lambda>c. 40),
             readyState = (\<lambda>ws. OPEN), send_throws = (\<lambda>ws. False),
             date_now = 10, process_pid = 4242\<rparr>"

definition env_destroy_fails :: env where
  "env_destroy_fails = env_ok\<lparr>destroy_error := (\<lambda>c. Some ''socket hang up'')\<rparr>"

definition store_no_token :: MemStorage where
  "store_no_token = store1\<lparr>bots := DAList.update 1 (bot1\<lparr>token := []\<rparr>) DAList.empty\<rparr>"

definition world_no_token :: BotManager where
  "world_no_token = world_running\<lparr>storage := store_no_token\<rparr>"

definition world_online :: BotManager where
  "world_online = world_running\<lparr>storage :=
     store1\<lparr>bots := DAList.update 1 (bot1\<lparr>isRunning := True, status := Some ''ONLINE''\<rparr>) DAList.empty\<rparr>\<rparr>"

definition world_started :: BotManager where
  "world_started = snd (startBot env_ok 1 world_idle)"

definition world_token_cleared :: BotManager where
  "world_token_cleared =
     world_started\<lparr>storage := snd (updateBot 1 [Set_token []] (storage world_started))\<rparr>"

definition idle_sample :: InsertMetric where
  "idle_sample = \<lparr>cpuUsage = Some 0, memoryUsage = Some 1200, memoryTotal = Some 2000,
                   diskUsage = Some 0, diskTotal = Some 0, networkUsage = Some 0\<rparr>"

definition env_closed :: env where
  "env_closed = env_ok\<lparr>readyState := (\<lambda>ws. if ws = 7 then CLOSED else OPEN),
                       send_throws := (\<lambda>ws. ws = 7)\<rparr>"

definition world_subscribed :: BotManager where
  "world_subscribed = world_idle\<lparr>clients := [7, 8]\<rparr>"

definition env_no_ping :: env where
  "env_no_ping = env_ok\<lparr>ws_ping := (\<lambda>c. - 1)\<rparr>"

definition env_send_throws :: env where
  "env_send_throws = env_ok\<lparr>send_throws := (\<lambda>ws. ws = 7)\<rparr>"

definition bot_wanted :: Bot where
  "bot_wanted = bot1\<lparr>isRunning := True\<rparr>"

definition world_down :: BotManager where
  "world_down = world_idle\<lparr>storage := store1\<lparr>bots := DAList.update 1 bot_wanted DAList.empty\<rparr>\<rparr>"

definition bot2 :: Bot where
  "bot2 = \<lparr>bot_id = 2, name = ''DJ Bot'', token = ''placeholder-token'', prefix = ''!'',
           userId = 2, isRunning = False, memory = Some 94, uptime = Some 0,
           serverCount = Some 18, commandCount = Some 15, lastStarted = None,
           botType = Some ''MUSIC'', iconType = Some ''music'', status = Some ''OFFLINE'',
           permissions = Some ''36700160'', inviteConfig = Some ''{}''\<rparr>"

definition world_two :: BotManager where
  "world_two = world_running\<lparr>storage := store1\<lparr>bots := DAList.update 2 bot2 (bots store1)\<rparr>\<rparr>"

definition env_login_fails :: env where
  "env_login_fails = env_ok\<lparr>login_error := (\<lambda>c t. Some ''An invalid token was provided.'')\<rparr>"

section \<open>Lemmas about the store\<close>

lemma slice_from_end_short: "length xs \<le> n \<Longrightarrow> slice_from_end n xs = xs"
  by (simp add: slice_from_end_def)

lemma length_slice_from_end: "length (slice_from_end n xs) = min n (length xs)"
  by (simp add: slice_from_end_def)

lemma slice_from_end_append:
  "slice_from_end n (slice_from_end n xs @ ys) = slice_from_end n (xs @ ys)"
proof (cases "length xs \<le> n")
  case True
  then show ?thesis by (simp add: slice_from_end_short)
next
  case False
  then have "length xs + length ys - (length xs - n + n) + (length xs - n)
      = length xs + length ys - n" by arith
  with False show ?thesis by (simp add: slice_from_end_def)
qed

lemma last_slice_from_end_snoc: "0 < n \<Longrightarrow> last (slice_from_end n (xs @ [x])) = x"
  by (simp add: slice_from_end_def)

lemma createLog_logs:
  "logs (snd (createLog now l s)) = slice_from_end 1000 (logs s @ [fst (createLog now l s)])"
  by (simp add: createLog_def Let_def slice_from_end_short)

lemma createLog_metricsHistory:
  "metricsHistory (snd (createLog now l s)) = metricsHistory s"
  by (simp add: createLog_def Let_def)

lemma createMetrics_metricsHistory:
  "metricsHistory (snd (createMetrics now m s)) =
     slice_from_end 100 (metricsHistory s @ [fst (createMetrics now m s)])"
  by (simp add: createMetrics_def Let_def slice_from_end_short)

lemma createMetrics_logs:
  "logs (snd (createMetrics now m s)) = logs s"
  by (simp add: createMetrics_def Let_def)

lemma createLog_length: "length (logs (snd (createLog now l s))) \<le> 1000"
  by (simp add: createLog_logs length_slice_from_end)

lemma createMetrics_length: "length (metricsHistory (snd (createMetrics now m s))) \<le> 100"
  by (simp add: createMetrics_metricsHistory length_slice_from_end)

lemma run_calls_histories:
  "length (logs s) \<le> 1000 \<Longrightarrow> length (metricsHistory s) \<le> 100 \<Longrightarrow>
   logs (snd (run_calls cs s)) = slice_from_end 1000 (logs s @ fst (fst (run_calls cs s))) \<and>
   metricsHistory (snd (run_calls cs s)) =
     slice_from_end 100 (metricsHistory s @ snd (fst (run_calls cs s)))"
proof (induction cs arbitrary: s)
  case Nil
  then show ?case by (simp add: slice_from_end_short)
next
  case (Cons c cs)
  show ?case
  proof (cases c)
    case (CreateLog now l)
    obtain row s1 where c1: "createLog now l s = (row, s1)" by (cases "createLog now l s")
    obtain ls ms s2 where c2: "run_calls cs s1 = ((ls, ms), s2)"
      by (cases "run_calls cs s1") auto
    have s1: "logs s1 = slice_from_end 1000 (logs s @ [row])" "metricsHistory s1 = metricsHistory s"
      using createLog_logs [of now l s] createLog_metricsHistory [of now l s] c1 by simp_all
    have "length (logs s1) \<le> 1000" "length (metricsHistory s1) \<le> 100"
      using createLog_length [of now l s] c1 s1 Cons.prems by simp_all
    from Cons.IH [OF this] c2
    have "logs s2 = slice_from_end 1000 (logs s1 @ ls)"
      "metricsHistory s2 = slice_from_end 100 (metricsHistory s1 @ ms)" by simp_all
    with s1 have "logs s2 = slice_from_end 1000 (logs s @ row # ls)"
      "metricsHistory s2 = slice_from_end 100 (metricsHistory s @ ms)"
      using slice_from_end_append [of 1000 "logs s @ [row]" ls] by simp_all
    with CreateLog c1 c2 show ?thesis by simp
  next
    case (CreateMetrics now m)
    obtain row s1 where c1: "createMetrics now m s = (row, s1)" by (cases "createMetrics now m s")
    obtain ls ms s2 where c2: "run_calls cs s1 = ((ls, ms), s2)"
      by (cases "run_calls cs s1") auto
    have s1: "metricsHistory s1 = slice_from_end 100 (metricsHistory s @ [row])" "logs s1 = logs s"
      using createMetrics_metricsHistory [of now m s] createMetrics_logs [of now m s] c1 by simp_all
    have "length (logs s1) \<le> 1000" "length (metricsHistory s1) \<le> 100"
      using createMetrics_length [of now m s] c1 s1 Cons.prems by simp_all
    from Cons.IH [OF this] c2
    have "logs s2 = slice_from_end 1000 (logs s1 @ ls)"
      "metricsHistory s2 = slice_from_end 100 (metricsHistory s1 @ ms)" by simp_all
    with s1 have "logs s2 = slice_from_end 1000 (logs s @ ls)"
      "metricsHistory s2 = slice_from_end 100 (metricsHistory s @ row # ms)"
      using slice_from_end_append [of 100 "metricsHistory s @ [row]" ms] by simp_all
    with CreateMetrics c1 c2 show ?thesis by simp
  qed
qed

lemma createLog_result:
  "fst (createLog now l s) =
     \<lparr>log_id = logCurrentId s, log_botId = num_or_null (botId l), log_timestamp = now,
      log_level = str_or (level l) ''info'', log_message = message l\<rparr>"
  "logCurrentId (snd (createLog now l s)) = logCurrentId s + 1"
  "metricsCurrentId (snd (createLog now l s)) = metricsCurrentId s"
  by (simp_all add: createLog_def Let_def)

lemma createMetrics_result:
  "fst (createMetrics now m s) =
     \<lparr>metric_id = metricsCurrentId s, metric_timestamp = now,
      metric_cpuUsage = num_or_null (cpuUsage m),
      metric_memoryUsage = num_or_null (memoryUsage m),
      metric_memoryTotal = num_or_null (memoryTotal m),
      metric_diskUsage = num_or_null (diskUsage m),
      metric_diskTotal = num_or_null (diskTotal m),
      metric_networkUsage = num_or_null (networkUsage m)\<rparr>"
  "metricsCurrentId (snd (createMetrics now m s)) = metricsCurrentId s + 1"
  "logCurrentId (snd (createMetrics now m s)) = logCurrentId s"
  by (simp_all add: createMetrics_def Let_def)

lemma run_calls_CreateLog:
  "fst (run_calls (CreateLog now l # cs) s) =
     (fst (createLog now l s) # fst (fst (run_calls cs (snd (createLog now l s)))),
      snd (fst (run_calls cs (snd (createLog now l s)))))"
  by (simp split: prod.splits)

lemma run_calls_CreateMetrics:
  "fst (run_calls (CreateMetrics now m # cs) s) =
     (fst (fst (run_calls cs (snd (createMetrics now m s)))),
      fst (createMetrics now m s) # snd (fst (run_calls cs (snd (createMetrics now m s)))))"
  by (simp split: prod.splits)

lemma run_calls_rows:
  "fst (run_calls cs s) = (log_rows (logCurrentId s) cs, metric_rows (metricsCurrentId s) cs)"
proof (induction cs arbitrary: s)
  case Nil
  show ?case by simp
next
  case (Cons c cs)
  show ?case
  proof (cases c)
    case (CreateLog now l)
    have "fst (run_calls cs (snd (createLog now l s))) =
        (log_rows (logCurrentId s + 1) cs, metric_rows (metricsCurrentId s) cs)"
      using Cons.IH [of "snd (createLog now l s)"] by (simp only: createLog_result)
    then show ?thesis
      by (simp only: CreateLog run_calls_CreateLog createLog_result log_rows.simps
          metric_rows.simps fst_conv snd_conv)
  next
    case (CreateMetrics now m)
    have "fst (run_calls cs (snd (createMetrics now m s))) =
        (log_rows (logCurrentId s) cs, metric_rows (metricsCurrentId s + 1) cs)"
      using Cons.IH [of "snd (createMetrics now m s)"] by (simp only: createMetrics_result)
    then show ?thesis
      by (simp only: CreateMetrics run_calls_CreateMetrics createMetrics_result log_rows.simps
          metric_rows.simps fst_conv snd_conv)
  qed
qed

lemma length_log_rows: "length (log_rows i cs) = length (filter is_log_call cs)"
  by (induction i cs rule: log_rows.induct) simp_all

lemma length_metric_rows:
  "length (metric_rows i cs) = length (filter (\<lambda>c. \<not> is_log_call c) cs)"
  by (induction i cs rule: metric_rows.induct) simp_all

lemma slice_from_end_upt:
  "length rows \<le> n \<Longrightarrow> b - a = n \<Longrightarrow> a' = a + length rows \<Longrightarrow>
   slice_from_end n (map f [a..<b] @ rows) = map f [a'..<b] @ rows"
  by (simp add: slice_from_end_def drop_map)

lemma createLog_row:
  "log_level (fst (createLog now l s)) = str_or (level l) ''info''"
  "log_botId (fst (createLog now l s)) = num_or_null (botId l)"
  "log_message (fst (createLog now l s)) = message l"
  "log_id (fst (createLog now l s)) = logCurrentId s"
  "log_timestamp (fst (createLog now l s)) = now"
  by (simp_all add: createLog_def Let_def)

lemma createLog_bots: "bots (snd (createLog now l s)) = bots s"
  by (simp add: createLog_def Let_def)

lemma getBot_createLog: "getBot i (snd (createLog now l s)) = getBot i s"
  by (simp add: getBot_def createLog_bots)

lemma getBot_updateBot:
  "getBot j (snd (updateBot i data s)) =
     (if j = i then map_option (\<lambda>b. spread b data) (getBot i s) else getBot j s)"
  by (simp add: getBot_def updateBot_def Let_def DAList.lookup_update split: option.split)

text \<open>
  A sample written is the latest sample read.
\<close>

lemma createMetrics_latest:
  "getLatestMetrics (snd (createMetrics now m s)) = Some (fst (createMetrics now m s))"
proof -
  let ?h = "metricsHistory (snd (createMetrics now m s))"
  have h: "?h = slice_from_end 100 (metricsHistory s @ [fst (createMetrics now m s)])"
    by (rule createMetrics_metricsHistory)
  then have ne: "?h \<noteq> []" by (simp add: slice_from_end_def)
  then have "?h ! (length ?h - 1) = last ?h" by (simp add: last_conv_nth)
  also have "\<dots> = fst (createMetrics now m s)" by (simp add: h last_slice_from_end_snoc)
  finally show ?thesis using ne by (simp add: getLatestMetrics_def)
qed

section \<open>Lemmas about the manager\<close>

subsection \<open>Logging and broadcasting\<close>

lemma BotManager_createLog_eq:
  "BotManager_createLog e l w =
     w\<lparr>storage := snd (createLog (date_now e) l (storage w)),
       logged := logged w @ [fst (createLog (date_now e) l (storage w))]\<rparr>"
  by (simp add: BotManager_createLog_def split: prod.split)

lemma logs_BotManager_createLog:
  "last (logs (storage (BotManager_createLog e l w))) = fst (createLog (date_now e) l (storage w))"
  by (simp add: BotManager_createLog_eq createLog_def Let_def last_slice_from_end_snoc)

lemma fold_sendStatusUpdateToClient:
  "fold (sendStatusUpdateToClient e) cs w =
     w\<lparr>sendCalls := sendCalls w @
          map (\<lambda>ws. Send ws (StatusUpdate (getAllBots (storage w)) (getLatestMetrics (storage w)))
                      (send_throws e ws)) cs\<rparr>"
  by (induction cs arbitrary: w) (simp_all add: sendStatusUpdateToClient_def Let_def)

lemma broadcastUpdate_eq:
  "broadcastUpdate e w =
     w\<lparr>sendCalls := sendCalls w @
          map (\<lambda>ws. Send ws (StatusUpdate (getAllBots (storage w)) (getLatestMetrics (storage w)))
                      (send_throws e ws)) (clients w)\<rparr>"
  by (simp add: broadcastUpdate_def fold_sendStatusUpdateToClient)

text \<open>
  \<open>broadcastUpdate\<close> calls \<open>send\<close> once for every subscriber of the set, in order,
  with the snapshot of all bots and the latest sample, whether or not a call throws.
\<close>

lemma broadcastUpdate_reaches_all:
  "map send_to (drop (length (sendCalls w)) (sendCalls (broadcastUpdate e w))) = clients w \<and>
   list_all (\<lambda>c. send_msg c = StatusUpdate (getAllBots (storage w)) (getLatestMetrics (storage w)))
     (drop (length (sendCalls w)) (sendCalls (broadcastUpdate e w)))"
  by (simp add: broadcastUpdate_eq list_all_iff comp_def)

text \<open>
  A \<open>send\<close> that throws on an open subscriber: \<open>broadcastError\<close> stops there and is
  rejected, \<open>broadcastUpdate\<close> goes on to the next subscriber.
\<close>

lemma broadcastError_aborts:
  "fst (broadcastError env_send_throws ''System error occurred'' world_subscribed) = False \<and>
   map send_to (sendCalls (snd (broadcastError env_send_throws ''System error occurred'' world_subscribed)))
     = [7] \<and>
   map send_to (sendCalls (broadcastUpdate env_send_throws world_subscribed)) = [7, 8]"
  by (simp add: broadcastUpdate_eq broadcastError_def env_send_throws_def world_subscribed_def
      world_idle_def env_ok_def)

lemma updateBotStatus_eq:
  "updateBotStatus e i st w =
     (let s = snd (updateBot i [Set_status (Some (BotStatus_text st))] (storage w))
      in w\<lparr>storage := s,
           sendCalls := sendCalls w @
             map (\<lambda>ws. Send ws (StatusUpdate (getAllBots s) (getLatestMetrics s)) (send_throws e ws))
               (clients w)\<rparr>)"
  by (simp add: updateBotStatus_def broadcastUpdate_eq Let_def)





subsection \<open>stopBot and startBot, case by case\<close>

lemma stopBot_removed:
  assumes "DAList.lookup (botProcesses w) i = Some p"
    and "case discordClient p of None \<Rightarrow> True | Some c \<Rightarrow> destroy_error e c = None"
  shows "stopBot e i w =
     (True, updateBotStatus e i OFFLINE
              (w\<lparr>clientCalls := clientCalls w @
                   (case discordClient p of None \<Rightarrow> [] | Some c \<Rightarrow> [ClientDestroy c]),
                 botProcesses := DAList.delete i (botProcesses w)\<rparr>))"
  using assms by (cases "discordClient p") (simp_all add: stopBot_def Let_def)

lemma stopBot_failed:
  assumes "DAList.lookup (botProcesses w) i = Some p" and "discordClient p = Some c"
    and "destroy_error e c = Some m"
  shows "stopBot e i w =
     (False, BotManager_createLog e
               \<lparr>botId = Some i, level = Some ''error'',
                message = ''Failed to stop: '' @ str_or (Some m) ''Unknown error''\<rparr>
               (w\<lparr>clientCalls := clientCalls w @ [ClientDestroy c]\<rparr>))"
  using assms by (simp add: stopBot_def Let_def)

lemma startBot_no_token:
  assumes "case getBot i (storage w) of None \<Rightarrow> True | Some b \<Rightarrow> token b = []"
  shows "startBot e i w =
     (False, BotManager_createLog e
               \<lparr>botId = Some i, level = Some ''error'', message = ''Bot token not found''\<rparr> w)"
  using assms by (cases "getBot i (storage w)") (simp_all add: startBot_def Let_def)

lemma startBot_running:
  assumes "getBot i (storage w) = Some b" and "token b \<noteq> []"
    and "DAList.lookup (botProcesses w) i = Some p"
  shows "startBot e i w =
     (True, BotManager_createLog e
              \<lparr>botId = Some i, level = Some ''warning'', message = ''Bot is already running''\<rparr> w)"
  using assms by (simp add: startBot_def Let_def)

lemma startBot_login_failed:
  assumes "getBot i (storage w) = Some b" and "token b \<noteq> []"
    and "DAList.lookup (botProcesses w) i = None"
    and "login_error e (newClient b (clientsMade w)) (token b) = Some m"
  shows "startBot e i w =
     (False, BotManager_createLog e
               \<lparr>botId = Some i, level = Some ''error'',
                message = ''Failed to start: '' @ str_or (Some m) ''Unknown error''\<rparr>
               (w\<lparr>clientsMade := clientsMade w + 1,
                  clientCalls := clientCalls w @ [ClientLogin (newClient b (clientsMade w)) (token b)]\<rparr>))"
  using assms by (simp add: startBot_def Let_def)

lemma startBot_login_ok:
  assumes "getBot i (storage w) = Some b" and "token b \<noteq> []"
    and "DAList.lookup (botProcesses w) i = None"
    and "login_error e (newClient b (clientsMade w)) (token b) = None"
  shows "startBot e i w =
     (True, w\<lparr>clientsMade := clientsMade w + 1,
              clientCalls := clientCalls w @ [ClientLogin (newClient b (clientsMade w)) (token b)],
              botProcesses :=
                DAList.update i
                  \<lparr>proc_botId = i, discordClient = Some (newClient b (clientsMade w)), proc_status = ONLINE,
                   startTime = Some (date_now e), pid = Some (process_pid e),
                   proc_memory = Some 100\<rparr>
                  (botProcesses w)\<rparr>)"
  using assms by (simp add: startBot_def Let_def)

subsection \<open>The handle map has one entry for a key\<close>

lemma filter_key_absent:
  "k \<notin> fst ` set xs \<Longrightarrow> filter (\<lambda>kv. fst kv = k) xs = []"
  by (induction xs) auto

lemma impl_of_lookup_filter:
  "distinct (map fst xs) \<Longrightarrow>
   map snd (filter (\<lambda>kv. fst kv = i) xs) = (case map_of xs i of None \<Rightarrow> [] | Some v \<Rightarrow> [v])"
proof (induction xs)
  case Nil
  then show ?case by simp
next
  case (Cons kv xs)
  obtain k v where kv: "kv = (k, v)" by (cases kv)
  show ?case
  proof (cases "k = i")
    case True
    with Cons.prems kv have "filter (\<lambda>kv. fst kv = i) xs = []"
      by (simp add: filter_key_absent)
    with True kv show ?thesis by simp
  next
    case False
    with Cons kv show ?thesis by simp
  qed
qed

lemma handles_for_lookup:
  "handles_for i w = (case DAList.lookup (botProcesses w) i of None \<Rightarrow> [] | Some p \<Rightarrow> [p])"
  by (simp add: handles_for_def DAList.lookup.rep_eq impl_of_lookup_filter)

subsection \<open>What stopBot and startBot do to one handle and one record\<close>

lemma stopBot_other:
  "j \<noteq> i \<Longrightarrow>
   DAList.lookup (botProcesses (snd (stopBot e j w))) i = DAList.lookup (botProcesses w) i"
  by (simp add: stopBot_def Let_def updateBotStatus_eq BotManager_createLog_eq
      split: option.splits)

lemma startBot_other:
  "j \<noteq> i \<Longrightarrow>
   DAList.lookup (botProcesses (snd (startBot e j w))) i = DAList.lookup (botProcesses w) i"
  by (simp add: startBot_def Let_def BotManager_createLog_eq split: option.splits)

lemma stopBot_logged:
  "\<exists>ls. logged (snd (stopBot e j w)) = logged w @ ls"
  by (simp add: stopBot_def Let_def updateBotStatus_eq BotManager_createLog_eq
      split: option.splits)

lemma startBot_logged:
  "\<exists>ls. logged (snd (startBot e j w)) = logged w @ ls"
  by (simp add: startBot_def Let_def BotManager_createLog_eq split: option.splits)

lemma stopBot_own:
  "DAList.lookup (botProcesses (snd (stopBot e i w))) i = None \<or>
   DAList.lookup (botProcesses (snd (stopBot e i w))) i = DAList.lookup (botProcesses w) i \<and>
   (\<exists>row. logged (snd (stopBot e i w)) = logged w @ [row] \<and>
          log_level row = ''error'' \<and> log_botId row = num_or_null (Some i))"
  by (simp add: stopBot_def Let_def updateBotStatus_eq BotManager_createLog_eq createLog_row
      str_or_def split: option.splits)

lemma startBot_own:
  "(DAList.lookup (botProcesses (snd (startBot e i w))) i = DAList.lookup (botProcesses w) i \<and>
    (DAList.lookup (botProcesses w) i = None \<longrightarrow>
       (\<exists>row. logged (snd (startBot e i w)) = logged w @ [row] \<and>
              log_level row = ''error'' \<and> log_botId row = num_or_null (Some i)))) \<or>
   (\<exists>b. getBot i (storage w) = Some b \<and>
        DAList.lookup (botProcesses w) i = None \<and>
        DAList.lookup (botProcesses (snd (startBot e i w))) i =
          Some \<lparr>proc_botId = i, discordClient = Some (newClient b (clientsMade w)),
                proc_status = ONLINE, startTime = Some (date_now e),
                pid = Some (process_pid e), proc_memory = Some 100\<rparr>)"
  by (simp add: startBot_def Let_def BotManager_createLog_eq createLog_row
      str_or_def split: option.splits)

lemma stopBot_other_record:
  "j \<noteq> i \<Longrightarrow> getBot i (storage (snd (stopBot e j w))) = getBot i (storage w)"
  by (simp add: stopBot_def Let_def updateBotStatus_eq BotManager_createLog_eq
      getBot_createLog getBot_updateBot split: option.splits)

lemma startBot_record:
  "getBot i (storage (snd (startBot e j w))) = getBot i (storage w)"
  by (simp add: startBot_def Let_def BotManager_createLog_eq getBot_createLog
      split: option.splits)

subsection \<open>Recovery is kept by every step\<close>

















subsection \<open>The loop body of the reconciliation pass\<close>

lemma pingBot_keeps:
  assumes "\<And>l w. P w \<Longrightarrow> P (BotManager_createLog e l w)"
    and "\<And>w. P w \<Longrightarrow> P (snd (restartBot e (bot_id b) w))"
    and "\<And>w st. P w \<Longrightarrow> P (updateBotStatus e (bot_id b) st w)"
    and "\<And>w m. P w \<Longrightarrow> P (updateBotMetrics (bot_id b) m w)"
    and "P w"
  shows "P (pingBot e b w)"
  by (simp add: pingBot_def Let_def assms split: option.split)







lemma pingBot_correction:
  assumes "DAList.lookup (botProcesses w) (bot_id b) = Some p" and "proc_status p = ONLINE"
    and "\<not> isRunning b"
    and "case discordClient p of None \<Rightarrow> True | Some c \<Rightarrow> ws_ping e c \<noteq> - 1"
  shows "pingBot e b w =
          BotManager_createLog e
            \<lparr>botId = Some (bot_id b), level = Some ''info'',
             message = ''Ping mechanism corrected bot status to online.''\<rparr>
            (updateBotMetrics (bot_id b) [Set_isRunning True]
               (updateBotStatus e (bot_id b) ONLINE w))"
  using assms by (simp add: pingBot_def Let_def split: option.splits)

text \<open>
  The loop body on a bot whose record in the list says not running, whose handle has
  status \<open>ONLINE\<close> and whose client (if it has one) does not report \<open>-1\<close> as its
  ping: it sets the persisted record to running with status \<open>ONLINE\<close>, creates one log
  row of level \<open>info\<close> saying so, constructs no client, makes no call on a client and
  leaves the handle map as it was.
\<close>

lemma pingBot_corrects_record:
  assumes "DAList.lookup (botProcesses w) (bot_id b) = Some p" and "proc_status p = ONLINE"
    and "\<not> isRunning b" and "getBot (bot_id b) (storage w) = Some r"
    and "case discordClient p of None \<Rightarrow> True | Some c \<Rightarrow> ws_ping e c \<noteq> - 1"
  shows "getBot (bot_id b) (storage (pingBot e b w)) =
           Some (r\<lparr>status := Some ''ONLINE'', isRunning := True\<rparr>) \<and>
         botProcesses (pingBot e b w) = botProcesses w \<and>
         clientCalls (pingBot e b w) = clientCalls w \<and>
         clientsMade (pingBot e b w) = clientsMade w \<and>
         (\<exists>row. logged (pingBot e b w) = logged w @ [row] \<and>
                log_level row = ''info'' \<and>
                log_message row = ''Ping mechanism corrected bot status to online.'' \<and>
                log_botId row = num_or_null (Some (bot_id b)))"
  using assms(4)
  by (simp add: pingBot_correction [OF assms(1,2,3,5)] BotManager_createLog_eq
      updateBotMetrics_def updateBotStatus_eq Let_def getBot_createLog getBot_updateBot
      createLog_row spread_def str_or_def)

lemma untouched_refl: "untouched i w w"
  by (simp add: untouched_def)

lemma untouched_trans: "untouched i w w1 \<Longrightarrow> untouched i w1 w2 \<Longrightarrow> untouched i w w2"
  by (auto simp: untouched_def)

lemma untouched_createLog: "untouched i w (BotManager_createLog e l w)"
  by (simp add: untouched_def BotManager_createLog_eq getBot_createLog)

lemma untouched_updateBotStatus: "j \<noteq> i \<Longrightarrow> untouched i w (updateBotStatus e j st w)"
  by (simp add: untouched_def updateBotStatus_eq Let_def getBot_updateBot)

lemma untouched_updateBotMetrics: "j \<noteq> i \<Longrightarrow> untouched i w (updateBotMetrics j m w)"
  by (simp add: untouched_def updateBotMetrics_def getBot_updateBot)

lemma untouched_restartBot: "j \<noteq> i \<Longrightarrow> untouched i w (snd (restartBot e j w))"
  using stopBot_logged [of e j w] startBot_logged [of e j "snd (stopBot e j w)"]
  by (auto simp: untouched_def restartBot_def stopBot_other startBot_other
      stopBot_other_record startBot_record)

lemma pingBot_other:
  assumes "bot_id b \<noteq> i" shows "untouched i w (pingBot e b w)"
proof (rule pingBot_keeps [where P = "untouched i w"])
  show "untouched i w w" by (rule untouched_refl)
qed (blast intro: untouched_trans untouched_createLog untouched_restartBot [OF assms]
       untouched_updateBotStatus [OF assms] untouched_updateBotMetrics [OF assms])+

lemma fold_pingBot_other:
  "list_all (\<lambda>b. bot_id b \<noteq> i) bs \<Longrightarrow> untouched i w (fold (pingBot e) bs w)"
proof (induction bs arbitrary: w)
  case Nil
  show ?case by (simp add: untouched_refl)
next
  case (Cons b bs)
  then have "untouched i w (pingBot e b w)"
    "untouched i (pingBot e b w) (fold (pingBot e) bs (pingBot e b w))"
    by (simp_all add: pingBot_other)
  then show ?case by (auto intro: untouched_trans)
qed

section \<open>The claims\<close>

subsection \<open>C1: a reconciliation pass recovers a bot without a handle or logs an error\<close>



text \<open>
  The two outcomes, run. With a login that succeeds the pass ends with an online
  handle; the rows logged are the warning and the success entry.
\<close>

lemma pingTick_example_online:
  "DAList.lookup (botProcesses (pingTick env_ok world_down)) 1 =
     Some \<lparr>proc_botId = 1, discordClient = Some (newClient bot_wanted 0), proc_status = ONLINE,
           startTime = Some 10, pid = Some 4242, proc_memory = Some 100\<rparr> \<and>
   map log_level (logged (pingTick env_ok world_down)) = [''warning'', ''success'']"
  by (simp add: pingTick_def broadcastUpdate_eq pingBot_def restartBot_def stopBot_def
      startBot_def BotManager_createLog_eq Let_def getBot_def createLog_bots createLog_row
      getAllBots_def DAList.update.rep_eq DAList.empty.rep_eq str_or_def
      world_down_def world_idle_def store1_def bot_wanted_def env_ok_def bot1_def)

text \<open>
  With a login that fails the pass ends without a handle and with the error row of
  \<open>startBot\<close> between the warning and the success entry, which the pass logs whatever
  \<open>restartBot\<close> returned.
\<close>

lemma pingTick_example_error:
  "DAList.lookup (botProcesses (pingTick env_login_fails world_down)) 1 = None \<and>
   map log_level (logged (pingTick env_login_fails world_down)) = [''warning'', ''error'', ''success''] \<and>
   map log_message (logged (pingTick env_login_fails world_down)) ! 1 =
     ''Failed to start: An invalid token was provided.''"
  by (simp add: pingTick_def broadcastUpdate_eq pingBot_def restartBot_def stopBot_def
      startBot_def BotManager_createLog_eq Let_def getBot_def createLog_bots createLog_row
      getAllBots_def DAList.update.rep_eq DAList.empty.rep_eq str_or_def
      world_down_def world_idle_def store1_def bot_wanted_def env_login_fails_def env_ok_def bot1_def)

subsection \<open>C2: starting a bot that has a handle\<close>

text \<open>
  Claim C2 as stated fails. The token test comes before the test for an existing
  handle. A first \<open>startBot\<close> succeeds and puts a handle in the map; the record's token
  is then set to the empty string (the update route accepts it while the bot runs);
  with no stop in between, the second \<open>startBot\<close> returns \<open>false\<close> although the
  handle is still in the map.
\<close>

theorem startBot_token_cleared_counterexample:
  "fst (startBot env_ok 1 world_idle) = True \<and>
   DAList.lookup (botProcesses world_started) 1 \<noteq> None \<and>
   botProcesses world_token_cleared = botProcesses world_started \<and>
   fst (startBot env_ok 1 world_token_cleared) = False"
  by (simp add: world_token_cleared_def world_started_def startBot_def world_idle_def
      store1_def bot1_def env_ok_def getBot_def updateBot_def spread_def Let_def)

text \<open>
  Claim C2, amended. When the handle map has a handle for the identifier and the
  persisted record has a token, \<open>startBot\<close> returns \<open>true\<close>, constructs no client,
  makes no call on a client, and leaves the handle map as it was, with exactly the one
  existing handle for the identifier.
\<close>

theorem startBot_idempotent:
  assumes "DAList.lookup (botProcesses w) i = Some p"
    and "getBot i (storage w) = Some b" and "token b \<noteq> []"
  shows "fst (startBot e i w) = True \<and>
         botProcesses (snd (startBot e i w)) = botProcesses w \<and>
         handles_for i (snd (startBot e i w)) = [p] \<and>
         clientsMade (snd (startBot e i w)) = clientsMade w \<and>
         clientCalls (snd (startBot e i w)) = clientCalls w"
  using assms
  by (simp add: startBot_running [OF assms(2,3,1)] BotManager_createLog_eq handles_for_lookup)

text \<open>
  The theorem of C2 at a running bot.
\<close>

theorem startBot_idempotent_witness:
  "DAList.lookup (botProcesses world_running) 1 = Some proc1 \<and>
   getBot 1 (storage world_running) = Some bot1 \<and> token bot1 \<noteq> [] \<and>
   fst (startBot env_ok 1 world_running) = True \<and>
   botProcesses (snd (startBot env_ok 1 world_running)) = botProcesses world_running \<and>
   handles_for 1 (snd (startBot env_ok 1 world_running)) = [proc1] \<and>
   clientsMade (snd (startBot env_ok 1 world_running)) = clientsMade world_running \<and>
   clientCalls (snd (startBot env_ok 1 world_running)) = clientCalls world_running"
proof -
  have h: "DAList.lookup (botProcesses world_running) 1 = Some proc1"
    "getBot 1 (storage world_running) = Some bot1" "token bot1 \<noteq> []"
    by (simp_all add: world_running_def getBot_def store1_def bot1_def)
  from startBot_idempotent [OF h, of env_ok] h show ?thesis by blast
qed

text \<open>
  Two calls in a row: when the first call returned \<open>true\<close>, the record has a token
  and the map has a handle, so the second call returns \<open>true\<close> as well, whatever the
  outside answers the second time, and changes neither the map nor the calls made.
\<close>

lemma startBot_twice_in_a_row:
  assumes "fst (startBot e i w)"
  shows "fst (startBot e' i (snd (startBot e i w))) \<and>
         botProcesses (snd (startBot e' i (snd (startBot e i w)))) =
           botProcesses (snd (startBot e i w)) \<and>
         clientCalls (snd (startBot e' i (snd (startBot e i w)))) =
           clientCalls (snd (startBot e i w)) \<and>
         length (handles_for i (snd (startBot e' i (snd (startBot e i w))))) = 1"
proof -
  let ?w1 = "snd (startBot e i w)"
  from assms obtain b where b: "getBot i (storage w) = Some b" "token b \<noteq> []"
    by (cases "getBot i (storage w)") (auto simp: startBot_def Let_def split: if_splits)
  have "\<exists>p. DAList.lookup (botProcesses ?w1) i = Some p \<and> getBot i (storage ?w1) = Some b"
  proof (cases "DAList.lookup (botProcesses w) i")
    case (Some p)
    then show ?thesis
      by (simp add: startBot_running [OF b Some] BotManager_createLog_eq getBot_createLog b)
  next
    case None
    show ?thesis
    proof (cases "login_error e (newClient b (clientsMade w)) (token b)")
      case ok: None
      show ?thesis by (simp add: startBot_login_ok [OF b None ok] b)
    next
      case (Some m)
      with assms show ?thesis by (simp add: startBot_login_failed [OF b None Some])
    qed
  qed
  then obtain p where p: "DAList.lookup (botProcesses ?w1) i = Some p"
    "getBot i (storage ?w1) = Some b" by blast
  show ?thesis
    by (simp add: startBot_running [OF p(2) b(2) p(1)] BotManager_createLog_eq
        handles_for_lookup p(1))
qed

subsection \<open>C3: at most one handle after a restart\<close>

text \<open>
  Claim C3. Whatever the state before (handle present or not) and whatever
  \<open>destroy\<close> and \<open>login\<close> answer, \<open>restartBot\<close> returns, and afterwards the handle
  map has at most one handle for the identifier. If it has one, it is either the handle
  that was there before (\<open>destroy\<close> threw, or the record has no token) or a new handle
  for that identifier with status \<open>ONLINE\<close>.
\<close>

theorem restartBot_one_handle:
  "length (handles_for i (snd (restartBot e i w))) \<le> 1 \<and>
   (case DAList.lookup (botProcesses (snd (restartBot e i w))) i of
      None \<Rightarrow> True
    | Some p \<Rightarrow> DAList.lookup (botProcesses w) i = Some p \<or>
               proc_botId p = i \<and> proc_status p = ONLINE)"
proof -
  let ?w1 = "snd (stopBot e i w)"
  let ?w2 = "snd (startBot e i ?w1)"
  have stop: "DAList.lookup (botProcesses ?w1) i = None \<or>
              DAList.lookup (botProcesses ?w1) i = DAList.lookup (botProcesses w) i"
    using stopBot_own [of e i w] by blast
  have start: "DAList.lookup (botProcesses ?w2) i = DAList.lookup (botProcesses ?w1) i \<or>
               (\<exists>p. DAList.lookup (botProcesses ?w2) i = Some p \<and>
                    proc_botId p = i \<and> proc_status p = ONLINE)"
    using startBot_own [of e i ?w1] by auto
  have "length (handles_for i ?w2) \<le> 1"
    by (simp add: handles_for_lookup split: option.split)
  moreover from stop start
  have "case DAList.lookup (botProcesses ?w2) i of
          None \<Rightarrow> True
        | Some p \<Rightarrow> DAList.lookup (botProcesses w) i = Some p \<or>
                   proc_botId p = i \<and> proc_status p = ONLINE"
    by (auto split: option.split)
  ultimately show ?thesis by (simp add: restartBot_def)
qed

subsection \<open>C4: stopping a bot that has a handle\<close>

text \<open>
  Claim C4 as stated fails. A handle exists and \<open>destroy\<close> throws: \<open>stopBot\<close>
  returns \<open>false\<close>, the handle is still in the map and the persisted status is still
  \<open>ONLINE\<close>. The \<open>delete\<close> and the status update stand after \<open>destroy\<close> inside the
  same \<open>try\<close>, so an exception skips both.
\<close>

theorem stopBot_destroy_throws_counterexample:
  "DAList.lookup (botProcesses world_online) 1 = Some proc1 \<and>
   discordClient proc1 = Some (newClient bot1 0) \<and>
   destroy_error env_destroy_fails (newClient bot1 0) = Some ''socket hang up'' \<and>
   fst (stopBot env_destroy_fails 1 world_online) = False \<and>
   DAList.lookup (botProcesses (snd (stopBot env_destroy_fails 1 world_online))) 1 = Some proc1 \<and>
   map_option status (getBot 1 (storage (snd (stopBot env_destroy_fails 1 world_online))))
     = Some (Some ''ONLINE'')"
  by (simp add: stopBot_def world_online_def world_running_def proc1_def env_destroy_fails_def
      env_ok_def BotManager_createLog_eq createLog_bots getBot_def store1_def)

text \<open>
  Claim C4, amended. For an identifier with a handle: when the handle has no client or
  \<open>destroy\<close> succeeds, \<open>stopBot\<close> returns \<open>true\<close>, removes the handle and sets the
  status of the persisted record (if there is one) to \<open>OFFLINE\<close>; when \<open>destroy\<close>
  throws, \<open>stopBot\<close> returns \<open>false\<close>, creates one log row of level \<open>error\<close> and
  leaves the handle map and the bot records as they were.
\<close>

theorem stopBot_present:
  assumes "DAList.lookup (botProcesses w) i = Some p"
  shows "((case discordClient p of None \<Rightarrow> True | Some c \<Rightarrow> destroy_error e c = None) \<longrightarrow>
            fst (stopBot e i w) = True \<and>
            DAList.lookup (botProcesses (snd (stopBot e i w))) i = None \<and>
            getBot i (storage (snd (stopBot e i w))) =
              map_option (\<lambda>b. b\<lparr>status := Some ''OFFLINE''\<rparr>) (getBot i (storage w))) \<and>
         ((case discordClient p of None \<Rightarrow> False | Some c \<Rightarrow> destroy_error e c \<noteq> None) \<longrightarrow>
            fst (stopBot e i w) = False \<and>
            botProcesses (snd (stopBot e i w)) = botProcesses w \<and>
            bots (storage (snd (stopBot e i w))) = bots (storage w) \<and>
            (\<exists>row. logged (snd (stopBot e i w)) = logged w @ [row] \<and>
                   log_level row = ''error'' \<and> log_botId row = num_or_null (Some i)))"
proof (intro conjI impI)
  assume ok: "case discordClient p of None \<Rightarrow> True | Some c \<Rightarrow> destroy_error e c = None"
  note r = stopBot_removed [OF assms ok]
  show "fst (stopBot e i w) = True" by (simp add: r)
  show "DAList.lookup (botProcesses (snd (stopBot e i w))) i = None"
    by (simp add: r updateBotStatus_eq Let_def)
  show "getBot i (storage (snd (stopBot e i w))) =
          map_option (\<lambda>b. b\<lparr>status := Some ''OFFLINE''\<rparr>) (getBot i (storage w))"
    by (simp add: r updateBotStatus_eq Let_def getBot_updateBot spread_def)
next
  assume bad: "case discordClient p of None \<Rightarrow> False | Some c \<Rightarrow> destroy_error e c \<noteq> None"
  then obtain c m where c: "discordClient p = Some c" "destroy_error e c = Some m"
    by (auto split: option.splits)
  note r = stopBot_failed [OF assms c]
  show "fst (stopBot e i w) = False" by (simp add: r)
  show "botProcesses (snd (stopBot e i w)) = botProcesses w"
    by (simp add: r BotManager_createLog_eq)
  show "bots (storage (snd (stopBot e i w))) = bots (storage w)"
    by (simp add: r BotManager_createLog_eq createLog_bots)
  show "\<exists>row. logged (snd (stopBot e i w)) = logged w @ [row] \<and>
              log_level row = ''error'' \<and> log_botId row = num_or_null (Some i)"
    by (simp add: r BotManager_createLog_eq createLog_row str_or_def)
qed

text \<open>
  The theorem of C4 at a running bot, once with \<open>destroy\<close> succeeding and once with
  \<open>destroy\<close> throwing.
\<close>

theorem stopBot_present_witness:
  "DAList.lookup (botProcesses world_online) 1 = Some proc1 \<and>
   (case discordClient proc1 of None \<Rightarrow> True | Some c \<Rightarrow> destroy_error env_ok c = None) \<and>
   fst (stopBot env_ok 1 world_online) = True \<and>
   DAList.lookup (botProcesses (snd (stopBot env_ok 1 world_online))) 1 = None \<and>
   (case discordClient proc1 of None \<Rightarrow> False | Some c \<Rightarrow> destroy_error env_destroy_fails c \<noteq> None) \<and>
   fst (stopBot env_destroy_fails 1 world_online) = False \<and>
   botProcesses (snd (stopBot env_destroy_fails 1 world_online)) = botProcesses world_online"
proof -
  have h: "DAList.lookup (botProcesses world_online) 1 = Some proc1"
    by (simp add: world_online_def world_running_def)
  have ok: "case discordClient proc1 of None \<Rightarrow> True | Some c \<Rightarrow> destroy_error env_ok c = None"
    by (simp add: proc1_def env_ok_def)
  have bad: "case discordClient proc1 of None \<Rightarrow> False
             | Some c \<Rightarrow> destroy_error env_destroy_fails c \<noteq> None"
    by (simp add: proc1_def env_destroy_fails_def)
  from stopBot_present [OF h, of env_ok] stopBot_present [OF h, of env_destroy_fails] h ok bad
  show ?thesis by blast
qed

subsection \<open>C5: broadcasting to subscribers\<close>

text \<open>
  Claim C5. \<open>broadcastUpdate\<close> does not skip a subscriber that is not open: with
  subscriber 7 closed and subscriber 8 open it calls \<open>send\<close> on both.
  \<open>broadcastError\<close>, which tests \<open>readyState\<close>, calls it on subscriber 8 only.
\<close>

theorem broadcastUpdate_sends_to_closed:
  "readyState env_closed 7 = CLOSED \<and>
   map send_to (sendCalls (broadcastUpdate env_closed world_subscribed)) = [7, 8] \<and>
   map send_to (sendCalls (snd (broadcastError env_closed ''System error occurred'' world_subscribed)))
     = [8]"
  by (simp add: broadcastUpdate_eq broadcastError_def env_closed_def world_subscribed_def
      world_idle_def env_ok_def)

subsection \<open>C6: starting a bot without a token\<close>

text \<open>
  Claim C6. When the store has no record for the identifier, or the record's token is
  empty, \<open>startBot\<close> returns \<open>false\<close> (it returns, so nothing is thrown to the
  caller), creates exactly one log row, of level \<open>error\<close> with the message
  \<open>Bot token not found\<close>, constructs no client, makes no call on a client and leaves the
  handle map as it was.
\<close>

theorem startBot_without_token:
  assumes "case getBot i (storage w) of None \<Rightarrow> True | Some b \<Rightarrow> token b = []"
  shows "fst (startBot e i w) = False \<and>
         botProcesses (snd (startBot e i w)) = botProcesses w \<and>
         clientsMade (snd (startBot e i w)) = clientsMade w \<and>
         clientCalls (snd (startBot e i w)) = clientCalls w \<and>
         (\<exists>row. logged (snd (startBot e i w)) = logged w @ [row] \<and>
                last (logs (storage (snd (startBot e i w)))) = row \<and>
                log_level row = ''error'' \<and>
                log_message row = ''Bot token not found'' \<and>
                log_botId row = num_or_null (Some i))"
proof -
  let ?l = "\<lparr>botId = Some i, level = Some ''error'', message = ''Bot token not found''\<rparr>"
  have r: "startBot e i w = (False, BotManager_createLog e ?l w)"
    using assms by (rule startBot_no_token)
  have "last (logs (storage (BotManager_createLog e ?l w))) =
          fst (createLog (date_now e) ?l (storage w))"
    by (rule logs_BotManager_createLog)
  then show ?thesis
    by (simp add: r BotManager_createLog_eq createLog_row str_or_def)
qed

text \<open>
  The theorem of C6 at a record whose token is empty.
\<close>

theorem startBot_without_token_witness:
  "(case getBot 1 (storage world_no_token) of None \<Rightarrow> True | Some b \<Rightarrow> token b = []) \<and>
   fst (startBot env_ok 1 world_no_token) = False \<and>
   botProcesses (snd (startBot env_ok 1 world_no_token)) = botProcesses world_no_token \<and>
   map log_message (logged (snd (startBot env_ok 1 world_no_token))) = [''Bot token not found'']"
proof -
  have h: "case getBot 1 (storage world_no_token) of None \<Rightarrow> True | Some b \<Rightarrow> token b = []"
    by (simp add: world_no_token_def store_no_token_def getBot_def)
  have "logged world_no_token = []"
    by (simp add: world_no_token_def world_running_def)
  with startBot_without_token [OF h, of env_ok] h show ?thesis by auto
qed

subsection \<open>C7: stopping a bot without a handle\<close>

text \<open>
  Claim C7. For an identifier with no handle, \<open>stopBot\<close> returns \<open>false\<close> and leaves
  the whole state as it was: the handle map, the store with its bot records and its log
  history, and the calls made on the outside.
\<close>

theorem stopBot_missing_noop:
  "DAList.lookup (botProcesses w) i = None \<Longrightarrow> stopBot e i w = (False, w)"
  by (simp add: stopBot_def)

text \<open>
  The theorem of C7 at the manager without handles.
\<close>

theorem stopBot_missing_noop_witness:
  "DAList.lookup (botProcesses world_idle) 1 = None \<and> stopBot env_ok 1 world_idle = (False, world_idle)"
proof -
  have h: "DAList.lookup (botProcesses world_idle) 1 = None" by (simp add: world_idle_def)
  from stopBot_missing_noop [OF h] h show ?thesis by simp
qed

subsection \<open>C8: correcting a record that lags behind an online handle\<close>

text \<open>
  Claim C8 as stated fails. The pass finds a handle with status \<open>ONLINE\<close> for a bot
  whose record says not running, and the client's \<open>ws.ping\<close> is \<open>-1\<close>. After
  correcting the record, the third test of the loop body restarts the bot: the old client
  is destroyed, a new one logs in, the handle is replaced, and the persisted status ends
  as \<open>OFFLINE\<close>.
\<close>

theorem pingTick_unresponsive_counterexample:
  "DAList.lookup (botProcesses world_running) 1 = Some proc1 \<and>
   proc_status proc1 = ONLINE \<and>
   getAllBots (storage world_running) = [bot1] \<and> \<not> isRunning bot1 \<and>
   DAList.lookup (botProcesses (pingTick env_no_ping world_running)) 1 \<noteq> Some proc1 \<and>
   clientCalls (pingTick env_no_ping world_running) =
     [ClientDestroy (newClient bot1 0), ClientLogin (newClient bot1 1) ''placeholder-token''] \<and>
   map_option status (getBot 1 (storage (pingTick env_no_ping world_running))) =
     Some (Some ''OFFLINE'')"
  by (simp add: pingTick_def broadcastUpdate_eq pingBot_def restartBot_def stopBot_def
      startBot_def updateBotStatus_eq updateBotMetrics_def BotManager_createLog_eq Let_def
      getBot_def createLog_bots updateBot_def spread_def newClient_def getAllBots_def
      DAList.update.rep_eq DAList.empty.rep_eq
      world_running_def store1_def proc1_def env_no_ping_def env_ok_def bot1_def)

text \<open>
  Claim C8, amended. The pass reads a list in which \<open>b\<close> is the only bot with its
  identifier; \<open>b\<close> says not running, the map has a handle for it with status
  \<open>ONLINE\<close>, and the handle's client (if it has one) does not report \<open>-1\<close> as its
  ping. When the pass ends, the persisted record of \<open>b\<close> is the one from before with
  \<open>isRunning\<close> true and status \<open>ONLINE\<close>, the correction entry was logged, and the
  map still holds the same handle; the step of the loop for \<open>b\<close> changes nothing in
  the handle map, constructs no client and calls neither \<open>destroy\<close> nor \<open>login\<close>.
\<close>

theorem pingTick_corrects_record:
  assumes found: "getAllBots (storage w) = pre @ b # post"
    and others: "list_all (\<lambda>b'. bot_id b' \<noteq> bot_id b) pre" "list_all (\<lambda>b'. bot_id b' \<noteq> bot_id b) post"
    and handle: "DAList.lookup (botProcesses w) (bot_id b) = Some p" "proc_status p = ONLINE"
    and stopped: "\<not> isRunning b"
    and stored: "getBot (bot_id b) (storage w) = Some r"
    and healthy: "case discordClient p of None \<Rightarrow> True | Some c \<Rightarrow> ws_ping e c \<noteq> - 1"
  shows "getBot (bot_id b) (storage (pingTick e w)) =
           Some (r\<lparr>status := Some ''ONLINE'', isRunning := True\<rparr>) \<and>
         DAList.lookup (botProcesses (pingTick e w)) (bot_id b) = Some p \<and>
         correction_logged_since (length (logged w)) (bot_id b) (pingTick e w) \<and>
         botProcesses (pingBot e b (fold (pingBot e) pre w)) =
           botProcesses (fold (pingBot e) pre w) \<and>
         clientCalls (pingBot e b (fold (pingBot e) pre w)) =
           clientCalls (fold (pingBot e) pre w) \<and>
         clientsMade (pingBot e b (fold (pingBot e) pre w)) =
           clientsMade (fold (pingBot e) pre w)"
proof -
  let ?i = "bot_id b"
  let ?w1 = "fold (pingBot e) pre w"
  let ?w2 = "pingBot e b ?w1"
  let ?w3 = "fold (pingBot e) post ?w2"
  have u1: "untouched ?i w ?w1" using others(1) by (rule fold_pingBot_other)
  then have h1: "DAList.lookup (botProcesses ?w1) ?i = Some p" "getBot ?i (storage ?w1) = Some r"
    using handle stored by (simp_all add: untouched_def)
  from pingBot_corrects_record [OF h1(1) handle(2) stopped h1(2) healthy]
  have r2: "getBot ?i (storage ?w2) = Some (r\<lparr>status := Some ''ONLINE'', isRunning := True\<rparr>)"
    and same: "botProcesses ?w2 = botProcesses ?w1" "clientCalls ?w2 = clientCalls ?w1"
      "clientsMade ?w2 = clientsMade ?w1"
    and row: "\<exists>row. logged ?w2 = logged ?w1 @ [row] \<and> log_level row = ''info'' \<and>
      log_message row = ''Ping mechanism corrected bot status to online.'' \<and>
      log_botId row = num_or_null (Some ?i)"
    by blast+
  from u1 obtain ls where "logged ?w1 = logged w @ ls" by (auto simp: untouched_def)
  with row have l2: "correction_logged_since (length (logged w)) ?i ?w2"
    by (auto simp: correction_logged_since_def list_ex_iff)
  have u3: "untouched ?i ?w2 ?w3" using others(2) by (rule fold_pingBot_other)
  then have l3: "correction_logged_since (length (logged w)) ?i ?w3"
    using l2 by (auto simp: untouched_def correction_logged_since_def list_ex_iff)
  have "pingTick e w = broadcastUpdate e ?w3" by (simp add: pingTick_def found)
  with u3 r2 h1(1) l3 same show ?thesis
    by (simp add: broadcastUpdate_eq untouched_def correction_logged_since_def)
qed

text \<open>
  The theorem of C8 at a store with two bots, the first with a handle and a record
  that says not running.
\<close>

theorem pingTick_corrects_record_witness:
  "getAllBots (storage world_two) = [] @ bot1 # [bot2] \<and>
   list_all (\<lambda>b'. bot_id b' \<noteq> bot_id bot1) [] \<and>
   list_all (\<lambda>b'. bot_id b' \<noteq> bot_id bot1) [bot2] \<and>
   DAList.lookup (botProcesses world_two) (bot_id bot1) = Some proc1 \<and>
   proc_status proc1 = ONLINE \<and> \<not> isRunning bot1 \<and>
   getBot (bot_id bot1) (storage world_two) = Some bot1 \<and>
   (case discordClient proc1 of None \<Rightarrow> True | Some c \<Rightarrow> ws_ping env_ok c \<noteq> - 1) \<and>
   getBot (bot_id bot1) (storage (pingTick env_ok world_two)) =
     Some (bot1\<lparr>status := Some ''ONLINE'', isRunning := True\<rparr>) \<and>
   DAList.lookup (botProcesses (pingTick env_ok world_two)) (bot_id bot1) = Some proc1 \<and>
   correction_logged_since (length (logged world_two)) (bot_id bot1) (pingTick env_ok world_two) \<and>
   clientCalls (pingBot env_ok bot1 world_two) = clientCalls world_two"
proof -
  have h: "getAllBots (storage world_two) = [] @ bot1 # [bot2]"
    "list_all (\<lambda>b'. bot_id b' \<noteq> bot_id bot1) []"
    "list_all (\<lambda>b'. bot_id b' \<noteq> bot_id bot1) [bot2]"
    "DAList.lookup (botProcesses world_two) (bot_id bot1) = Some proc1"
    "proc_status proc1 = ONLINE" "\<not> isRunning bot1"
    "getBot (bot_id bot1) (storage world_two) = Some bot1"
    "case discordClient proc1 of None \<Rightarrow> True | Some c \<Rightarrow> ws_ping env_ok c \<noteq> - 1"
    by (simp_all add: world_two_def world_running_def getAllBots_def DAList.update.rep_eq
        DAList.empty.rep_eq DAList.lookup.rep_eq bot1_def bot2_def proc1_def getBot_def
        store1_def env_ok_def)
  from pingTick_corrects_record [OF h] h show ?thesis by simp
qed

subsection \<open>C9: bounded histories\<close>

text \<open>
  Claim C9. Start from a store whose histories are within the caps (the constructor's
  store holds two log rows and one sample) and run any sequence of \<open>createLog\<close> and
  \<open>createMetrics\<close> calls. The rows returned are those of the calls, one for each call
  and in the order of the calls, with consecutive identifiers. Afterwards the log
  history has at most 1000 rows and the metrics history at most 100 samples, and each
  history is the last 1000 (100) elements of the old history followed by those rows:
  what is evicted is the oldest. Every prefix of a sequence is a sequence, so this
  holds after each call.
\<close>

theorem history_caps:
  assumes "length (logs s) \<le> 1000" and "length (metricsHistory s) \<le> 100"
  shows "length (logs (snd (run_calls cs s))) \<le> 1000 \<and>
         length (metricsHistory (snd (run_calls cs s))) \<le> 100 \<and>
         logs (snd (run_calls cs s)) = slice_from_end 1000 (logs s @ fst (fst (run_calls cs s))) \<and>
         metricsHistory (snd (run_calls cs s)) =
           slice_from_end 100 (metricsHistory s @ snd (fst (run_calls cs s))) \<and>
         fst (fst (run_calls cs s)) = log_rows (logCurrentId s) cs \<and>
         snd (fst (run_calls cs s)) = metric_rows (metricsCurrentId s) cs \<and>
         length (fst (fst (run_calls cs s))) = length (filter is_log_call cs) \<and>
         length (snd (fst (run_calls cs s))) = length (filter (\<lambda>c. \<not> is_log_call c) cs)"
  using run_calls_histories [OF assms, of cs]
  by (simp add: length_slice_from_end run_calls_rows length_log_rows length_metric_rows)

text \<open>
  The theorem of C9 at the caps: a store with 1000 log rows and 100 samples, then two
  \<open>createLog\<close> calls and one \<open>createMetrics\<close> call. The histories stay at 1000 and
  100; the two oldest log rows and the oldest sample are gone, and the rows
  of the three calls stand at the end.
\<close>

theorem history_caps_witness:
  "length (logs store_full) \<le> 1000 \<and> length (metricsHistory store_full) \<le> 100 \<and>
   length (logs store_full) = 1000 \<and> length (metricsHistory store_full) = 100 \<and>
   length (logs (snd (run_calls calls_cap store_full))) = 1000 \<and>
   length (metricsHistory (snd (run_calls calls_cap store_full))) = 100 \<and>
   fst (fst (run_calls calls_cap store_full)) =
     [\<lparr>log_id = 1001, log_botId = Some 1, log_timestamp = 2001, log_level = ''info'',
       log_message = ''started''\<rparr>,
      \<lparr>log_id = 1002, log_botId = None, log_timestamp = 2003, log_level = ''error'',
       log_message = ''stopped''\<rparr>] \<and>
   logs (snd (run_calls calls_cap store_full)) =
     map old_log [3..<1001] @ fst (fst (run_calls calls_cap store_full)) \<and>
   metricsHistory (snd (run_calls calls_cap store_full)) =
     map old_metric [2..<101] @ snd (fst (run_calls calls_cap store_full)) \<and>
   map metric_id (snd (fst (run_calls calls_cap store_full))) = [101]"
proof -
  have old: "logs store_full = map old_log [1..<1001]"
    "metricsHistory store_full = map old_metric [1..<101]"
    by (simp_all add: store_full_def del: upt_rec_numeral)
  have n: "length (logs store_full) = 1000" "length (metricsHistory store_full) = 100"
    by (simp_all add: old del: upt_rec_numeral)
  then have h: "length (logs store_full) \<le> 1000" "length (metricsHistory store_full) \<le> 100"
    by simp_all
  have ids: "logCurrentId store_full = 1001" "metricsCurrentId store_full = 101"
    by (simp_all add: store_full_def del: upt_rec_numeral)
  have rows: "log_rows 1001 calls_cap =
     [\<lparr>log_id = 1001, log_botId = Some 1, log_timestamp = 2001, log_level = ''info'',
       log_message = ''started''\<rparr>,
      \<lparr>log_id = 1002, log_botId = None, log_timestamp = 2003, log_level = ''error'',
       log_message = ''stopped''\<rparr>]"
    by (simp add: calls_cap_def num_or_null_def str_or_def)
  have mrows: "map metric_id (metric_rows 101 calls_cap) = [101]"
    by (simp add: calls_cap_def)
  then have mlen: "length (metric_rows 101 calls_cap) = 1"
    using length_map [of metric_id "metric_rows 101 calls_cap"] by simp
  have cut1: "slice_from_end 1000 (map old_log [1..<1001] @ log_rows 1001 calls_cap) =
      map old_log [3..<1001] @ log_rows 1001 calls_cap"
    by (rule slice_from_end_upt) (simp_all add: rows)
  have cut2: "slice_from_end 100 (map old_metric [1..<101] @ metric_rows 101 calls_cap) =
      map old_metric [2..<101] @ metric_rows 101 calls_cap"
    by (rule slice_from_end_upt) (simp_all add: mlen)
  note t = history_caps [OF h, of calls_cap, unfolded ids old]
  from t have r1: "fst (fst (run_calls calls_cap store_full)) = log_rows 1001 calls_cap"
    and r2: "snd (fst (run_calls calls_cap store_full)) = metric_rows 101 calls_cap"
    and l1: "logs (snd (run_calls calls_cap store_full)) =
       slice_from_end 1000 (map old_log [1..<1001] @ fst (fst (run_calls calls_cap store_full)))"
    and l2: "metricsHistory (snd (run_calls calls_cap store_full)) =
       slice_from_end 100 (map old_metric [1..<101] @ snd (fst (run_calls calls_cap store_full)))"
    by blast+
  have f1: "logs (snd (run_calls calls_cap store_full)) =
      map old_log [3..<1001] @ fst (fst (run_calls calls_cap store_full))"
    using l1 cut1 by (simp only: r1)
  have f2: "metricsHistory (snd (run_calls calls_cap store_full)) =
      map old_metric [2..<101] @ snd (fst (run_calls calls_cap store_full))"
    using l2 cut2 by (simp only: r2)
  have g1: "length (logs (snd (run_calls calls_cap store_full))) = 1000"
    by (simp add: f1 r1 rows del: upt_rec_numeral)
  have g2: "length (metricsHistory (snd (run_calls calls_cap store_full))) = 100"
    by (simp add: f2 r2 mlen del: upt_rec_numeral)
  have r1': "fst (fst (run_calls calls_cap store_full)) =
     [\<lparr>log_id = 1001, log_botId = Some 1, log_timestamp = 2001, log_level = ''info'',
       log_message = ''started''\<rparr>,
      \<lparr>log_id = 1002, log_botId = None, log_timestamp = 2003, log_level = ''error'',
       log_message = ''stopped''\<rparr>]"
    using r1 rows by simp
  have r2': "map metric_id (snd (fst (run_calls calls_cap store_full))) = [101]"
    using r2 mrows by simp
  from h n g1 g2 r1' f1 f2 r2' show ?thesis by blast
qed

subsection \<open>C10: a sample written is the sample read\<close>

text \<open>
  Claim C10. The sample \<open>createMetrics\<close> returns is the one \<open>getLatestMetrics\<close>
  reads back (\<open>createMetrics_latest\<close>), but it does not carry every field value of
  its argument: \<open>x || null\<close> stores \<open>null\<close> for a reading of \<open>0\<close>. An idle host whose
  disk and network probes failed reports \<open>0\<close> for CPU, disk and network; the row stored
  and read back has \<open>null\<close> in those fields.
\<close>

theorem createMetrics_zero_reading:
  "cpuUsage idle_sample = Some 0 \<and>
   metric_cpuUsage (fst (createMetrics 7 idle_sample store0)) = None \<and>
   getLatestMetrics (snd (createMetrics 7 idle_sample store0)) =
     Some \<lparr>metric_id = 1, metric_timestamp = 7, metric_cpuUsage = None,
           metric_memoryUsage = Some 1200, metric_memoryTotal = Some 2000,
           metric_diskUsage = None, metric_diskTotal = None, metric_networkUsage = None\<rparr>"
  by (simp add: createMetrics_latest)
     (simp add: createMetrics_def idle_sample_def store0_def num_or_null_def Let_def)

end
